theory Spec2Isabelle
  imports Main "HOL-Library.Word"
begin

unbundle bit_operations_syntax

section \<open>Lifetime positions\<close>

text \<open>
  The allocator of \<^verbatim>\<open>runtime/vm/compiler/backend/linearscan.cc\<close> numbers every
  instruction with two lifetime positions (\<open>2n\<close> its start, \<open>2n + 1\<close> its end).
  Positions and virtual register numbers are \<^verbatim>\<open>intptr_t\<close>; they are modelled as
  \<^typ>\<open>int\<close>, with the bit operations of the source kept as they are written.
  Indices into arrays and register codes are \<^typ>\<open>nat\<close>.
\<close>

definition kNoVirtualRegister :: int where
  "kNoVirtualRegister = - 1"

definition kTempVirtualRegister :: int where
  "kTempVirtualRegister = - 2"



definition MinPosition :: "int \<Rightarrow> int \<Rightarrow> int" where
  "MinPosition a b = (if a < b then a else b)"

definition IsInstructionStartPosition :: "int \<Rightarrow> bool" where
  "IsInstructionStartPosition pos = (pos AND 1 = 0)"

definition IsInstructionEndPosition :: "int \<Rightarrow> bool" where
  "IsInstructionEndPosition pos = (pos AND 1 = 1)"


definition ToInstructionEnd :: "int \<Rightarrow> int" where
  "ToInstructionEnd pos = pos OR 1"

section \<open>Failures\<close>

text \<open>
  Every way in which the source stops instead of returning is a value:
  a failed \<^verbatim>\<open>ASSERT\<close> (the checks of a debug build are modelled as checked),
  \<^verbatim>\<open>UNREACHABLE()\<close>, the dereference of a null pointer, an array index out of
  range, and a loop over a cyclic pointer chain, which never ends.
  \<open>FingerLeftRange\<close> is the one limit of the list model below: a cached
  finger pointer whose node was handed to a split sibling is not followed.
\<close>

datatype error =
    AssertionFailed
  | Unreachable
  | NullDereference
  | IndexOutOfRange
  | DoesNotTerminate
  | FingerLeftRange

definition ebind :: "error + 'a \<Rightarrow> ('a \<Rightarrow> error + 'b) \<Rightarrow> error + 'b" where
  "ebind m f = (case m of Inl e \<Rightarrow> Inl e | Inr x \<Rightarrow> f x)"

definition ASSERT :: "bool \<Rightarrow> error + unit" where
  "ASSERT c = (if c then Inr () else Inl AssertionFailed)"

section \<open>Locations\<close>

text \<open>
  Modelled from the spec: \<^verbatim>\<open>Location\<close>, its policies and \<^verbatim>\<open>Representation\<close> are declared in
  \<^verbatim>\<open>locations.h\<close>, which is not among the source files. Section 9 of the specification lists
  the policy variants and the concrete locations; the constructors below follow that list.
  A constant is identified by a number, a stack slot by its index and its base register.
\<close>

datatype policy =
    kAny
  | kPrefersRegister
  | kRequiresRegister
  | kRequiresFpuRegister
  | kWritableRegister
  | kSameAsFirstInput
  | kSameAsFirstOrSecondInput
  | kMayBeSameAsFirstInput
  | kRequiresStack

datatype location_kind = kRegister | kFpuRegister

datatype base_register = FPREG | SPREG

datatype location =
    NoLocation
  | Constant nat
  | RegisterLocation nat
  | FpuRegisterLocation nat
  | StackSlot int base_register
  | DoubleStackSlot int base_register
  | QuadStackSlot int base_register
  | Unallocated policy
  | Pair location location


fun IsConstant :: "location \<Rightarrow> bool" where
  "IsConstant (Constant c) = True"
| "IsConstant _ = False"

fun IsRegister :: "location \<Rightarrow> bool" where
  "IsRegister (RegisterLocation r) = True"
| "IsRegister _ = False"

fun IsFpuRegister :: "location \<Rightarrow> bool" where
  "IsFpuRegister (FpuRegisterLocation r) = True"
| "IsFpuRegister _ = False"

definition IsMachineRegister :: "location \<Rightarrow> bool" where
  "IsMachineRegister loc = (IsRegister loc \<or> IsFpuRegister loc)"

fun IsUnallocated :: "location \<Rightarrow> bool" where
  "IsUnallocated (Unallocated p) = True"
| "IsUnallocated _ = False"

fun IsPairLocation :: "location \<Rightarrow> bool" where
  "IsPairLocation (Pair a b) = True"
| "IsPairLocation _ = False"

fun register_code :: "location \<Rightarrow> error + nat" where
  "register_code (RegisterLocation r) = Inr r"
| "register_code (FpuRegisterLocation r) = Inr r"
| "register_code _ = Inl AssertionFailed"

fun MachineRegisterLocation :: "location_kind \<Rightarrow> nat \<Rightarrow> location" where
  "MachineRegisterLocation kRegister r = RegisterLocation r"
| "MachineRegisterLocation kFpuRegister r = FpuRegisterLocation r"

fun has_kind :: "location \<Rightarrow> location_kind \<Rightarrow> bool" where
  "has_kind (RegisterLocation r) k = (k = kRegister)"
| "has_kind (FpuRegisterLocation r) k = (k = kFpuRegister)"
| "has_kind _ k = False"

datatype representation =
    kNoRepresentation
  | kTagged
  | kUntagged
  | kUnboxedDouble
  | kUnboxedFloat
  | kUnboxedInt32
  | kUnboxedUint32
  | kUnboxedInt64
  | kUnboxedFloat32x4
  | kUnboxedInt32x4
  | kUnboxedFloat64x2
  | kPairOfTagged


section \<open>Live ranges\<close>

text \<open>
  \<^verbatim>\<open>UseInterval\<close>, \<^verbatim>\<open>UsePosition\<close> and \<^verbatim>\<open>SafepointPosition\<close> are nodes of singly linked
  lists (\<^verbatim>\<open>linearscan.h\<close>); a linked list is a HOL list of its nodes, the \<^verbatim>\<open>next_\<close>
  field being the list structure. \<^verbatim>\<open>first_use_interval_\<close> is the head of the list of
  intervals and \<^verbatim>\<open>last_use_interval_\<close> its last node. A pointer to a \<^verbatim>\<open>Location\<close> is
  either the address of a cell (a slot of a location summary or of a move operand), or the
  \<^verbatim>\<open>assigned_location_slot()\<close> of a live range; the location slot of a use is always a
  cell, its hint may be either. Live ranges live in a store (a list,
  a pointer being an index); the pointers cached by an \<^verbatim>\<open>AllocationFinger\<close> are
  indices into the lists of its own range, \<open>None\<close> being the null pointer.
\<close>

record use_interval =
  iv_start :: int
  iv_end :: int

datatype location_ptr = SlotAt nat | AssignedLocationOf nat

record use_position =
  use_pos :: int
  location_slot :: nat
  hint :: "location_ptr option"

record safepoint_position =
  sp_pos :: int
  sp_locs :: nat

record allocation_finger =
  first_pending_use_interval :: "nat option"
  first_register_use :: "nat option"
  first_register_beneficial_use :: "nat option"
  first_hinted_use :: "nat option"

record live_range =
  vreg :: int
  representation :: representation
  assigned_location :: location
  spill_slot :: location
  uses :: "use_position list"
  use_intervals :: "use_interval list"
  safepoints :: "safepoint_position list"
  next_sibling :: "nat option"
  has_only_any_uses_in_loops :: "64 word"
  is_loop_phi :: bool
  has_uses_which_require_stack :: bool
  finger :: allocation_finger

definition null_finger :: allocation_finger where
  "null_finger = \<lparr> first_pending_use_interval = None, first_register_use = None,
     first_register_beneficial_use = None, first_hinted_use = None \<rparr>"

text \<open>The public constructor \<^verbatim>\<open>LiveRange(vreg, rep)\<close>.\<close>

definition new_LiveRange :: "int \<Rightarrow> representation \<Rightarrow> live_range" where
  "new_LiveRange v rep = \<lparr> vreg = v, representation = rep, assigned_location = NoLocation,
     spill_slot = NoLocation, uses = [], use_intervals = [], safepoints = [],
     next_sibling = None, has_only_any_uses_in_loops = 0, is_loop_phi = False,
     has_uses_which_require_stack = False, finger = null_finger \<rparr>"

text \<open>\<^verbatim>\<open>Start()\<close> and \<^verbatim>\<open>End()\<close> dereference the first and the last interval.\<close>

definition Start :: "live_range \<Rightarrow> error + int" where
  "Start r = (case use_intervals r of [] \<Rightarrow> Inl NullDereference | iv # ivs \<Rightarrow> Inr (iv_start iv))"

definition End :: "live_range \<Rightarrow> error + int" where
  "End r = (case use_intervals r of [] \<Rightarrow> Inl NullDereference
            | iv # ivs \<Rightarrow> Inr (iv_end (last (iv # ivs))))"


subsection \<open>\<^verbatim>\<open>LiveRange::AddUseInterval\<close>\<close>

text \<open>
  The first interval is updated in place or a new node is put in front of the list.
  A new node in front moves every node one place down the list, so a finger pointer
  that is not null moves with its node.
\<close>

definition shift_finger :: "allocation_finger \<Rightarrow> allocation_finger" where
  "shift_finger f = f \<lparr> first_pending_use_interval := map_option Suc (first_pending_use_interval f) \<rparr>"

definition prepend_interval :: "live_range \<Rightarrow> int \<Rightarrow> int \<Rightarrow> live_range" where
  "prepend_interval r s e =
     r \<lparr> use_intervals := \<lparr> iv_start = s, iv_end = e \<rparr> # use_intervals r,
         finger := shift_finger (finger r) \<rparr>"

definition AddUseInterval :: "live_range \<Rightarrow> int \<Rightarrow> int \<Rightarrow> error + live_range" where
  "AddUseInterval r s e =
     (if \<not> s < e then Inl AssertionFailed
      else case use_intervals r of
        [] \<Rightarrow> Inr (prepend_interval r s e)
      | first # rest \<Rightarrow>
          if s > iv_start first then
            (if vreg r = kNoVirtualRegister \<and> e \<le> iv_end first then Inr r
             else Inl AssertionFailed)
          else if s = iv_start first then
            (if e \<le> iv_end first then Inr r
             else Inr (r \<lparr> use_intervals := first \<lparr> iv_end := e \<rparr> # rest \<rparr>))
          else if e = iv_start first then
            Inr (r \<lparr> use_intervals := first \<lparr> iv_start := s \<rparr> # rest \<rparr>)
          else if e = iv_end first then
            Inr (r \<lparr> use_intervals := first \<lparr> iv_start := s \<rparr> # rest \<rparr>)
          else if e < iv_start first then Inr (prepend_interval r s e)
          else Inl AssertionFailed)"

subsection \<open>\<^verbatim>\<open>LiveRange::SplitAt\<close>\<close>

text \<open>\<^verbatim>\<open>AllocationFinger::Initialize\<close>, on the finger of the range itself.\<close>

definition Initialize :: "live_range \<Rightarrow> live_range" where
  "Initialize r =
     r \<lparr> finger :=
         \<lparr> first_pending_use_interval = (if use_intervals r = [] then None else Some 0),
           first_register_use = (if uses r = [] then None else Some 0),
           first_register_beneficial_use = (if uses r = [] then None else Some 0),
           first_hinted_use = (if uses r = [] then None else Some 0) \<rparr> \<rparr>"









subsection \<open>Sibling chains\<close>

text \<open>
  \<open>is_chain h p ps\<close>: following \<^verbatim>\<open>next_sibling()\<close> from the pointer \<open>p\<close> visits exactly the
  ranges at the addresses \<open>ps\<close>, in this order, and ends at the null pointer.
\<close>

fun is_chain :: "live_range list \<Rightarrow> nat option \<Rightarrow> nat list \<Rightarrow> bool" where
  "is_chain h p [] = (p = None)"
| "is_chain h p (q # qs) = (p = Some q \<and> q < length h \<and> is_chain h (next_sibling (h ! q)) qs)"

text \<open>The interval invariant of the data model: intervals are not empty, ascending and disjoint.\<close>

definition intervals_ok :: "use_interval list \<Rightarrow> bool" where
  "intervals_ok ivs =
     (ivs \<noteq> [] \<and> list_all (\<lambda>iv. iv_start iv < iv_end iv) ivs \<and>
      sorted_wrt (\<lambda>a b. iv_end a \<le> iv_start b) ivs)"




text \<open>Concrete ranges on which the theorems below are exercised.\<close>

definition range_4_10 :: live_range where
  "range_4_10 = (new_LiveRange 0 kTagged) \<lparr> use_intervals := [\<lparr> iv_start = 4, iv_end = 10 \<rparr>] \<rparr>"

definition blocking_4_10 :: live_range where
  "blocking_4_10 =
     (new_LiveRange kNoVirtualRegister kNoRepresentation)
       \<lparr> use_intervals := [\<lparr> iv_start = 4, iv_end = 10 \<rparr>] \<rparr>"


section \<open>The allocator and its flow graph\<close>

text \<open>
  Modelled from the spec: the flow graph, its blocks, loops and instructions, the frame
  layout and \<^verbatim>\<open>LocationSummary\<close> are declared in files that are not among the sources
  (\<^verbatim>\<open>flow_graph.h\<close>, \<^verbatim>\<open>il.h\<close>, \<^verbatim>\<open>loops.h\<close>, \<^verbatim>\<open>locations.h\<close>, \<^verbatim>\<open>stack_frame.h\<close>). The
  records below hold what the allocator reads from them (section 6 of the specification):
  per position the instruction and its block (the arrays \<^verbatim>\<open>instructions_\<close> and
  \<^verbatim>\<open>block_entries_\<close> that \<^verbatim>\<open>NumberInstructions\<close> fills), per block its positions, its
  innermost loop and its phis, per loop its header and the loop around it, the extra loop
  information, the number of stack slots reserved for catch entries, the mask of the
  allocatable CPU registers and the frame layout.
  A block, a loop and a phi are identified by their index. The reaching definitions of a
  phi, which \<^verbatim>\<open>ReachingDefs::Get\<close> computes from the phi inputs, are taken as given.
\<close>

record instruction =
  instr_is_block_entry :: bool
  instr_is_catch_block_entry :: bool
  instr_is_function_entry :: bool
  instr_block :: nat

record phi_instr =
  phi_vreg0 :: int
  phi_vreg1 :: "int option"
  phi_reaching_defs :: "int list"

record block_entry =
  start_pos :: int
  end_pos :: int
  block_loop_info :: "nat option"
  is_loop_header :: bool
  phis :: "phi_instr list"

record loop_info =
  header :: nat
  outer :: "nat option"

record extra_loop_info =
  loop_start :: int
  loop_end :: int
  backedge_interference :: "int list"

record flow_graph =
  instructions :: "instruction list"
  block_entries :: "nat list"
  blocks :: "block_entry list"
  loops :: "loop_info list"
  loop_headers :: "nat list"
  extra_loops :: "extra_loop_info list"
  fixed_slot_count :: nat
  kDartAvailableCpuRegs :: nat
  FrameSlotForVariableIndex :: "int \<Rightarrow> int"
  VariableIndexForFrameSlot :: "int \<Rightarrow> int"
  kDoubleSpillFactor :: int

record location_summary =
  always_calls :: bool
  can_call :: bool
  callee_safe_call :: bool
  stack_bits :: "int list"
  live_registers :: "(location \<times> representation) list"

text \<open>
  A parallel move created by \<^verbatim>\<open>AddMoveAt\<close>: its lifetime position and the cells of its
  destination and of its source.
\<close>

record move_operands =
  move_pos :: int
  dest_slot :: nat
  src_slot :: nat

text \<open>
  The state of \<^verbatim>\<open>FlowGraphAllocator\<close>: the store of live ranges, the store of location
  cells, the location summaries that safepoints point to, the moves added so far, and the
  fields of the class (\<^verbatim>\<open>linearscan.h\<close>).
\<close>

record allocator =
  ranges :: "live_range list"
  cells :: "location list"
  summaries :: "location_summary list"
  moves :: "move_operands list"
  value_representations :: "representation list"
  live_ranges :: "nat option list"
  unallocated_cpu :: "nat list"
  unallocated_fpu :: "nat list"
  cpu_regs :: "nat option list"
  fpu_regs :: "nat option list"
  blocked_cpu_registers :: "bool list"
  blocked_fpu_registers :: "bool list"
  spilled :: "nat list"
  register_kind :: location_kind
  number_of_registers :: nat
  registers :: "nat option list list"
  blocked_registers :: "bool list"
  unallocated :: "nat list"
  spill_slots :: "int list"
  quad_spill_slots :: "bool list"
  untagged_spill_slots :: "bool list"
  cpu_spill_slot_count :: int
  intrinsic_mode :: bool

text \<open>Reading an array at an index; \<^verbatim>\<open>GrowableArray::operator[]\<close> checks the index.\<close>

definition at :: "'a list \<Rightarrow> nat \<Rightarrow> error + 'a" where
  "at xs i = (if i < length xs then Inr (xs ! i) else Inl IndexOutOfRange)"

text \<open>Dereferencing a pointer to a live range.\<close>

definition deref :: "allocator \<Rightarrow> nat \<Rightarrow> error + live_range" where
  "deref st p = (if p < length (ranges st) then Inr (ranges st ! p) else Inl NullDereference)"

definition set_range :: "allocator \<Rightarrow> nat \<Rightarrow> live_range \<Rightarrow> allocator" where
  "set_range st p r = st \<lparr> ranges := (ranges st)[p := r] \<rparr>"

subsection \<open>\<^verbatim>\<open>FlowGraphAllocator::AllocateSpillSlotFor\<close>\<close>














definition empty_allocator :: allocator where
  "empty_allocator = \<lparr> ranges = [], cells = [], summaries = [], moves = [],
     value_representations = [], live_ranges = [], unallocated_cpu = [], unallocated_fpu = [],
     cpu_regs = [], fpu_regs = [], blocked_cpu_registers = [], blocked_fpu_registers = [],
     spilled = [], register_kind = kRegister, number_of_registers = 0, registers = [],
     blocked_registers = [], unallocated = [], spill_slots = [], quad_spill_slots = [],
     untagged_spill_slots = [], cpu_spill_slot_count = 0, intrinsic_mode = False \<rparr>"










subsection \<open>Positions, instructions and blocks\<close>

text \<open>
  \<^verbatim>\<open>InstructionAt(pos)\<close> and \<^verbatim>\<open>BlockEntryAt(pos)\<close> read the arrays at \<^verbatim>\<open>pos / 2\<close>, the
  division of C++, which rounds towards zero. \<^verbatim>\<open>GetLifetimePosition\<close> of a block entry
  is its \<^verbatim>\<open>start_pos()\<close>: \<^verbatim>\<open>NumberInstructions\<close> sets both to the same position.
\<close>

definition half :: "int \<Rightarrow> int" where
  "half pos = (if 0 \<le> pos then pos div 2 else - ((- pos) div 2))"

definition at_position :: "'a list \<Rightarrow> int \<Rightarrow> error + 'a" where
  "at_position xs pos = (if half pos < 0 then Inl IndexOutOfRange else at xs (nat (half pos)))"

definition InstructionAt :: "flow_graph \<Rightarrow> int \<Rightarrow> error + instruction" where
  "InstructionAt g pos = at_position (instructions g) pos"


definition block_at :: "flow_graph \<Rightarrow> nat \<Rightarrow> error + block_entry" where
  "block_at g b = (if b < length (blocks g) then Inr (blocks g ! b) else Inl NullDereference)"


definition IsBlockEntry :: "flow_graph \<Rightarrow> int \<Rightarrow> error + bool" where
  "IsBlockEntry g pos =
     (if IsInstructionStartPosition pos
      then ebind (InstructionAt g pos) (\<lambda>i. Inr (instr_is_block_entry i))
      else Inr False)"

definition IsCatchBlockEntry :: "flow_graph \<Rightarrow> int \<Rightarrow> error + bool" where
  "IsCatchBlockEntry g pos =
     (if IsInstructionStartPosition pos
      then ebind (InstructionAt g pos) (\<lambda>i. Inr (instr_is_catch_block_entry i))
      else Inr False)"

subsection \<open>\<^verbatim>\<open>FlowGraphAllocator::SplitBetween\<close>\<close>









subsection \<open>\<^verbatim>\<open>FlowGraphAllocator::GetLiveRange\<close> and \<^verbatim>\<open>AddMoveAt\<close>\<close>

text \<open>
  \<^verbatim>\<open>GetLiveRange\<close> returns the range of a virtual register and creates it on first
  reference. The result is the state and the pointer.
\<close>

definition GetLiveRange :: "allocator \<Rightarrow> int \<Rightarrow> error + (allocator \<times> nat)" where
  "GetLiveRange st v =
     (if v < 0 then Inl IndexOutOfRange
      else ebind (at (live_ranges st) (nat v)) (\<lambda>entry.
           case entry of
             Some p \<Rightarrow> Inr (st, p)
           | None \<Rightarrow>
               ebind (at (value_representations st) (nat v)) (\<lambda>rep.
               ebind (ASSERT (rep \<noteq> kNoRepresentation)) (\<lambda>_.
               Inr (st \<lparr> ranges := ranges st @ [new_LiveRange v rep],
                         live_ranges := (live_ranges st)[nat v := Some (length (ranges st))] \<rparr>,
                    length (ranges st))))))"

definition kNormalEntryPos :: int where
  "kNormalEntryPos = 2"

text \<open>
  \<^verbatim>\<open>AddMoveAt(pos, to, from)\<close> adds the move \<open>to \<leftarrow> from\<close> to the parallel move with the
  lifetime position \<open>pos\<close>, which \<^verbatim>\<open>CreateParallelMoveBefore\<close> or
  \<^verbatim>\<open>CreateParallelMoveAfter\<close> finds next to the instruction at \<open>pos\<close> or creates there.
  The new \<^verbatim>\<open>MoveOperands\<close> owns two fresh location cells; the result is the state and the
  index of the move. The links between instructions are not part of the model, so the
  assertions on \<^verbatim>\<open>previous()\<close> and \<^verbatim>\<open>next()\<close> are not either.
\<close>

definition AddMoveAt ::
  "flow_graph \<Rightarrow> allocator \<Rightarrow> int \<Rightarrow> location \<Rightarrow> location \<Rightarrow> error + (allocator \<times> nat)" where
  "AddMoveAt g st pos to from =
     ebind (IsBlockEntry g pos) (\<lambda>block_entry.
     ebind (if block_entry then ebind (IsCatchBlockEntry g pos) ASSERT else Inr ()) (\<lambda>_.
     ebind (ASSERT (pos \<ge> kNormalEntryPos)) (\<lambda>_.
     ebind (InstructionAt g pos) (\<lambda>instr.
     Inr (st \<lparr> cells := cells st @ [to, from],
               moves := moves st @ [\<lparr> move_pos = pos, dest_slot = length (cells st),
                                      src_slot = Suc (length (cells st)) \<rparr>] \<rparr>,
          length (moves st))))))"

subsection \<open>\<^verbatim>\<open>FlowGraphAllocator::ResolveControlFlow\<close>, the linear part\<close>








text \<open>
  The move the code emits for a pair of consecutive siblings: \<open>block_entry\<close> says that the
  end of the earlier sibling is a block entry position, \<open>catch_entry\<close> that the start of
  the later one is a catch block entry.
\<close>

definition sibling_move ::
  "bool \<Rightarrow> bool \<Rightarrow> location \<Rightarrow> int \<Rightarrow> location \<Rightarrow> int \<Rightarrow> location \<Rightarrow>
     (int \<times> location \<times> location) option" where
  "sibling_move block_entry catch_entry parent_spill_slot range_end range_loc
       sibling_start sibling_loc =
     (let constant_to_catch_block = (catch_entry \<and> IsConstant range_loc)
      in if (range_end = sibling_start \<or> constant_to_catch_block) \<and>
            sibling_loc \<noteq> parent_spill_slot \<and> range_loc \<noteq> sibling_loc \<and>
            (\<not> block_entry \<or> constant_to_catch_block)
         then Some (sibling_start + (if catch_entry then 1 else 0), sibling_loc, range_loc)
         else None)"

text \<open>
  The ranges of a sibling chain, from the pointer \<open>p\<close> on, in the order of the chain.
\<close>

fun siblings_of :: "nat \<Rightarrow> live_range list \<Rightarrow> nat option \<Rightarrow> nat list" where
  "siblings_of fuel h None = []"
| "siblings_of fuel h (Some p) =
     p # (case fuel of 0 \<Rightarrow> [] | Suc fuel' \<Rightarrow> siblings_of fuel' h (next_sibling (h ! p)))"

text \<open>
  The move that linear resolution owes to the consecutive siblings at \<open>p\<close> and \<open>q\<close> of the
  virtual register whose first range is at \<open>p0\<close>, if any; and the moves of a whole chain
  and of all virtual registers, in the order in which the loops visit them.
\<close>

definition pair_move ::
  "flow_graph \<Rightarrow> allocator \<Rightarrow> nat \<Rightarrow> nat \<times> nat \<Rightarrow> (int \<times> location \<times> location) option" where
  "pair_move g st p0 pq =
     (case End (ranges st ! fst pq) of
        Inl x \<Rightarrow> None
      | Inr range_end \<Rightarrow>
          (case Start (ranges st ! snd pq) of
             Inl x \<Rightarrow> None
           | Inr sibling_start \<Rightarrow>
               sibling_move (IsBlockEntry g range_end = Inr True)
                 (IsCatchBlockEntry g sibling_start = Inr True)
                 (spill_slot (ranges st ! p0))
                 range_end (assigned_location (ranges st ! fst pq))
                 sibling_start (assigned_location (ranges st ! snd pq))))"

definition chain_moves ::
  "flow_graph \<Rightarrow> allocator \<Rightarrow> nat \<Rightarrow> (int \<times> location \<times> location) option list" where
  "chain_moves g st v =
     (case live_ranges st ! v of
        None \<Rightarrow> []
      | Some p0 \<Rightarrow>
          (let ps = siblings_of (length (ranges st)) (ranges st) (Some p0)
           in map (pair_move g st p0) (zip ps (tl ps))))"

definition emit_move :: "allocator \<Rightarrow> (int \<times> location \<times> location) option \<Rightarrow> allocator" where
  "emit_move st mv =
     (case mv of
        None \<Rightarrow> st
      | Some (pos, to, from) \<Rightarrow>
          st \<lparr> cells := cells st @ [to, from],
               moves := moves st @ [\<lparr> move_pos = pos, dest_slot = length (cells st),
                                      src_slot = Suc (length (cells st)) \<rparr>] \<rparr>)"

text \<open>
  The live ranges array is well formed: every virtual register with a range heads a chain
  of siblings that all carry its number.
\<close>

definition chains_ok :: "allocator \<Rightarrow> bool" where
  "chains_ok st =
     (\<forall>v < length (live_ranges st).
        case live_ranges st ! v of
          None \<Rightarrow> True
        | Some p0 \<Rightarrow>
            (\<exists>ps. is_chain (ranges st) (Some p0) ps \<and>
                  (\<forall>q\<in>set ps. vreg (ranges st ! q) = int v)))"

section \<open>Live range construction\<close>

subsection \<open>\<^verbatim>\<open>LiveRange::AddUse\<close> and \<^verbatim>\<open>AddHintedUse\<close>\<close>

text \<open>
  A new use is put in front of the list or, when the first use is at an earlier position,
  after the uses at earlier positions; a use at the same position with the same slot is
  not added twice. The result is the range and the place of the use in its list. Finger
  pointers to uses behind a new use move with their nodes.
\<close>

definition shift_use_pointer :: "nat \<Rightarrow> nat option \<Rightarrow> nat option" where
  "shift_use_pointer k ptr = map_option (\<lambda>i. if k \<le> i then Suc i else i) ptr"

definition insert_use :: "live_range \<Rightarrow> nat \<Rightarrow> int \<Rightarrow> nat \<Rightarrow> live_range" where
  "insert_use r k pos slot =
     r \<lparr> uses := take k (uses r) @ \<lparr> use_pos = pos, location_slot = slot, hint = None \<rparr> #
                    drop k (uses r),
         finger := (finger r)
           \<lparr> first_register_use := shift_use_pointer k (first_register_use (finger r)),
             first_register_beneficial_use :=
               shift_use_pointer k (first_register_beneficial_use (finger r)),
             first_hinted_use := shift_use_pointer k (first_hinted_use (finger r)) \<rparr> \<rparr>"

definition AddUse_range :: "live_range \<Rightarrow> int \<Rightarrow> nat \<Rightarrow> error + (live_range \<times> nat)" where
  "AddUse_range r pos slot =
     (case use_intervals r of
        [] \<Rightarrow> Inl NullDereference
      | first # ivs \<Rightarrow>
          ebind (ASSERT (iv_start first \<le> pos \<and> pos \<le> iv_end first)) (\<lambda>_.
          case uses r of
            [] \<Rightarrow> Inr (insert_use r 0 pos slot, 0)
          | u # us \<Rightarrow>
              if use_pos u = pos \<and> location_slot u = slot then Inr (r, 0)
              else if use_pos u < pos then
                (let k = length (takeWhile (\<lambda>x. use_pos x < pos) (u # us));
                     same = takeWhile (\<lambda>x. use_pos x = pos) (drop k (u # us));
                     j = length (takeWhile (\<lambda>x. location_slot x \<noteq> slot) same)
                 in if j < length same then Inr (r, k + j)
                    else Inr (insert_use r k pos slot, k))
              else Inr (insert_use r 0 pos slot, 0)))"

definition AddUse :: "allocator \<Rightarrow> nat \<Rightarrow> int \<Rightarrow> nat \<Rightarrow> error + (allocator \<times> nat)" where
  "AddUse st range_ptr pos slot =
     ebind (deref st range_ptr) (\<lambda>r.
     ebind (AddUse_range r pos slot) (\<lambda>(r', i).
     Inr (set_range st range_ptr r', i)))"

definition AddHintedUse ::
  "allocator \<Rightarrow> nat \<Rightarrow> int \<Rightarrow> nat \<Rightarrow> location_ptr \<Rightarrow> error + allocator" where
  "AddHintedUse st range_ptr pos slot hint_ptr =
     ebind (AddUse st range_ptr pos slot) (\<lambda>(st', i).
     ebind (deref st' range_ptr) (\<lambda>r.
     ebind (at (uses r) i) (\<lambda>u.
     Inr (set_range st' range_ptr (r \<lparr> uses := (uses r)[i := u \<lparr> hint := Some hint_ptr \<rparr>] \<rparr>)))))"

text \<open>\<^verbatim>\<open>AddUseInterval\<close> on a range of the store.\<close>

definition AddUseInterval_at :: "allocator \<Rightarrow> nat \<Rightarrow> int \<Rightarrow> int \<Rightarrow> error + allocator" where
  "AddUseInterval_at st range_ptr s e =
     ebind (deref st range_ptr) (\<lambda>r.
     ebind (AddUseInterval r s e) (\<lambda>r'.
     Inr (set_range st range_ptr r')))"

subsection \<open>\<^verbatim>\<open>BlockLocation\<close>\<close>

text \<open>
  \<^verbatim>\<open>BlockRegisterLocation\<close> is called with the arrays of the CPU or of the FPU registers;
  \<open>cpu\<close> says which.
\<close>

definition BlockRegisterLocation ::
  "allocator \<Rightarrow> bool \<Rightarrow> location \<Rightarrow> int \<Rightarrow> int \<Rightarrow> error + allocator" where
  "BlockRegisterLocation st cpu loc from to =
     ebind (register_code loc) (\<lambda>code.
     ebind (at (if cpu then blocked_cpu_registers st else blocked_fpu_registers st) code) (\<lambda>blocked.
     if blocked then Inr st
     else
       ebind (at (if cpu then cpu_regs st else fpu_regs st) code) (\<lambda>entry.
       let (st1, blocking) =
             (case entry of
                Some p \<Rightarrow> (st, p)
              | None \<Rightarrow>
                  (let p = length (ranges st);
                       st' = st \<lparr> ranges := ranges st @
                               [(new_LiveRange kNoVirtualRegister kNoRepresentation)
                                  \<lparr> assigned_location := loc \<rparr>] \<rparr>
                   in (if cpu then st' \<lparr> cpu_regs := (cpu_regs st)[code := Some p] \<rparr>
                       else st' \<lparr> fpu_regs := (fpu_regs st)[code := Some p] \<rparr>, p)))
       in AddUseInterval_at st1 blocking from to)))"

definition BlockLocation :: "allocator \<Rightarrow> location \<Rightarrow> int \<Rightarrow> int \<Rightarrow> error + allocator" where
  "BlockLocation st loc from to =
     (if IsRegister loc then BlockRegisterLocation st True loc from to
      else if IsFpuRegister loc then BlockRegisterLocation st False loc from to
      else Inl Unreachable)"

subsection \<open>The worklists\<close>

text \<open>
  \<^verbatim>\<open>AddToSortedListOfRanges\<close> scans the list from its last element down for the first
  range that may not be allocated before the new one, and inserts the new one behind it.
  The scan is written on the reversed list.
\<close>

fun insert_before_later :: "live_range list \<Rightarrow> int \<Rightarrow> nat \<Rightarrow> nat list \<Rightarrow> error + nat list" where
  "insert_before_later h start range_ptr [] = Inr [range_ptr]"
| "insert_before_later h start range_ptr (x # xs) =
     (if \<not> x < length h then Inl NullDereference
      else ebind (Start (h ! x)) (\<lambda>s.
           if start \<le> s then Inr (range_ptr # x # xs)
           else ebind (insert_before_later h start range_ptr xs) (\<lambda>ys. Inr (x # ys))))"

definition AddToSortedListOfRanges ::
  "allocator \<Rightarrow> nat list \<Rightarrow> nat \<Rightarrow> error + (allocator \<times> nat list)" where
  "AddToSortedListOfRanges st list range_ptr =
     ebind (deref st range_ptr) (\<lambda>r.
     let st1 = set_range st range_ptr (Initialize r)
     in if list = [] then Inr (st1, [range_ptr])
        else ebind (Start r) (\<lambda>start.
             ebind (insert_before_later (ranges st1) start range_ptr (rev list)) (\<lambda>ys.
             Inr (st1, rev ys))))"

definition AddToUnallocated :: "allocator \<Rightarrow> nat \<Rightarrow> error + allocator" where
  "AddToUnallocated st range_ptr =
     ebind (AddToSortedListOfRanges st (unallocated st) range_ptr) (\<lambda>(st', list).
     Inr (st' \<lparr> unallocated := list \<rparr>))"

text \<open>\<^verbatim>\<open>CompleteRange(range, kind)\<close>; a kind other than the two register kinds is unreachable.\<close>

definition CompleteRange :: "allocator \<Rightarrow> nat \<Rightarrow> location_kind \<Rightarrow> error + allocator" where
  "CompleteRange st range_ptr kind =
     (case kind of
        kRegister \<Rightarrow>
          ebind (AddToSortedListOfRanges st (unallocated_cpu st) range_ptr) (\<lambda>(st', list).
          Inr (st' \<lparr> unallocated_cpu := list \<rparr>))
      | kFpuRegister \<Rightarrow>
          ebind (AddToSortedListOfRanges st (unallocated_fpu st) range_ptr) (\<lambda>(st', list).
          Inr (st' \<lparr> unallocated_fpu := list \<rparr>)))"

definition RegisterKindFromPolicy :: "location \<Rightarrow> location_kind" where
  "RegisterKindFromPolicy loc =
     (if loc = Unallocated kRequiresFpuRegister then kFpuRegister else kRegister)"

definition MakeLiveRangeForTemporary :: "allocator \<Rightarrow> allocator \<times> nat" where
  "MakeLiveRangeForTemporary st =
     (st \<lparr> ranges := ranges st @ [new_LiveRange kTempVirtualRegister kNoRepresentation] \<rparr>,
      length (ranges st))"

subsection \<open>\<^verbatim>\<open>FlowGraphAllocator::ProcessOneInput\<close>\<close>

text \<open>
  \<open>in_ref\<close> is the address of the input's location cell, \<open>block\<close> the index of the block,
  \<open>live_registers_of\<close> the location summary whose set of live registers the call was
  given, or \<open>None\<close> for the null pointer. \<^verbatim>\<open>RegisterSet::Add\<close> is modelled from the spec:
  it records the location with the representation.
\<close>

definition add_live_register ::
  "allocator \<Rightarrow> nat \<Rightarrow> location \<Rightarrow> representation \<Rightarrow> error + allocator" where
  "add_live_register st locs loc rep =
     ebind (at (summaries st) locs) (\<lambda>summary.
     Inr (st \<lparr> summaries := (summaries st)
                 [locs := summary \<lparr> live_registers := live_registers summary @ [(loc, rep)] \<rparr>] \<rparr>))"

definition set_cell :: "allocator \<Rightarrow> nat \<Rightarrow> location \<Rightarrow> error + allocator" where
  "set_cell st a loc =
     (if a < length (cells st) then Inr (st \<lparr> cells := (cells st)[a := loc] \<rparr>)
      else Inl NullDereference)"

text \<open>The three branches of the function, each on the range \<open>range_ptr\<close> of the input.\<close>

definition fixed_register_input ::
  "flow_graph \<Rightarrow> allocator \<Rightarrow> block_entry \<Rightarrow> int \<Rightarrow> nat \<Rightarrow> location \<Rightarrow> nat \<Rightarrow> nat option \<Rightarrow>
   error + allocator" where
  "fixed_register_input g st0 b pos in_ref in_loc range_ptr live_registers_of =
     ebind (case live_registers_of of
              None \<Rightarrow> Inr st0
            | Some locs \<Rightarrow>
                ebind (deref st0 range_ptr) (\<lambda>r.
                add_live_register st0 locs in_loc (representation r))) (\<lambda>st1.
     ebind (AddMoveAt g st1 (pos - 1) in_loc (Unallocated kAny)) (\<lambda>(st2, move).
     ebind (if IsRegister in_loc
            then ebind (register_code in_loc) (\<lambda>code. ASSERT (bit (kDartAvailableCpuRegs g) code))
            else Inr ()) (\<lambda>_.
     ebind (BlockLocation st2 in_loc (pos - 1) (pos + 1)) (\<lambda>st3.
     ebind (AddUseInterval_at st3 range_ptr (start_pos b) (pos - 1)) (\<lambda>st4.
     ebind (at (moves st4) move) (\<lambda>m.
     AddHintedUse st4 range_ptr (pos - 1) (src_slot m) (SlotAt in_ref)))))))"

definition writable_register_input ::
  "flow_graph \<Rightarrow> allocator \<Rightarrow> block_entry \<Rightarrow> int \<Rightarrow> nat \<Rightarrow> nat \<Rightarrow> error + allocator" where
  "writable_register_input g st0 b pos in_ref range_ptr =
     ebind (AddMoveAt g st0 pos (Unallocated kRequiresRegister) (Unallocated kPrefersRegister))
       (\<lambda>(st1, move).
     ebind (at (moves st1) move) (\<lambda>m.
     ebind (AddUseInterval_at st1 range_ptr (start_pos b) pos) (\<lambda>st2.
     ebind (AddUse st2 range_ptr pos (src_slot m)) (\<lambda>(st3, u).
     let (st4, temp) = MakeLiveRangeForTemporary st3
     in ebind (AddUseInterval_at st4 temp pos (pos + 1)) (\<lambda>st5.
        ebind (AddHintedUse st5 temp pos in_ref (SlotAt (src_slot m))) (\<lambda>st6.
        ebind (AddUse st6 temp pos (dest_slot m)) (\<lambda>(st7, u').
        ebind (set_cell st7 in_ref (Unallocated kRequiresRegister)) (\<lambda>st8.
        CompleteRange st8 temp (RegisterKindFromPolicy (Unallocated kRequiresRegister))))))))))"

definition unallocated_input ::
  "allocator \<Rightarrow> block_entry \<Rightarrow> int \<Rightarrow> nat \<Rightarrow> location \<Rightarrow> nat \<Rightarrow> error + allocator" where
  "unallocated_input st0 b pos in_ref in_loc range_ptr =
     ebind (if in_loc = Unallocated kRequiresStack
            then ebind (deref st0 range_ptr) (\<lambda>r.
                 Inr (set_range st0 range_ptr (r \<lparr> has_uses_which_require_stack := True \<rparr>)))
            else Inr st0) (\<lambda>st1.
     ebind (AddUseInterval_at st1 range_ptr (start_pos b) (pos + 1)) (\<lambda>st2.
     ebind (AddUse st2 range_ptr (pos + 1) in_ref) (\<lambda>(st3, u). Inr st3)))"

definition ProcessOneInput ::
  "flow_graph \<Rightarrow> allocator \<Rightarrow> nat \<Rightarrow> int \<Rightarrow> nat \<Rightarrow> int \<Rightarrow> nat option \<Rightarrow> error + allocator" where
  "ProcessOneInput g st block pos in_ref v live_registers_of =
     ebind (at (cells st) in_ref) (\<lambda>in_loc.
     ebind (ASSERT (\<not> IsPairLocation in_loc)) (\<lambda>_.
     ebind (block_at g block) (\<lambda>b.
     ebind (GetLiveRange st v) (\<lambda>(st0, range_ptr).
     if IsMachineRegister in_loc then
       fixed_register_input g st0 b pos in_ref in_loc range_ptr live_registers_of
     else if IsUnallocated in_loc then
       (if in_loc = Unallocated kWritableRegister
        then writable_register_input g st0 b pos in_ref range_ptr
        else unallocated_input st0 b pos in_ref in_loc range_ptr)
     else ebind (ASSERT (IsConstant in_loc)) (\<lambda>_. Inr st0)))))"

text \<open>
  C4 as the specification states the move: from the fixed register to an unallocated
  destination.
\<close>

definition claimed_input_move :: "location \<Rightarrow> location \<Rightarrow> location \<Rightarrow> bool" where
  "claimed_input_move fixed_register move_dest move_src =
     (move_src = fixed_register \<and> IsUnallocated move_dest)"

text \<open>Some interval of the range covers \<open>[from, to)\<close>.\<close>

definition covers :: "live_range \<Rightarrow> int \<Rightarrow> int \<Rightarrow> bool" where
  "covers r from to = list_ex (\<lambda>iv. iv_start iv \<le> from \<and> to \<le> iv_end iv) (use_intervals r)"

text \<open>
  A register is blocked over \<open>[from, to)\<close> when it is blocked everywhere
  (\<^verbatim>\<open>blocked_cpu_registers_\<close>, \<^verbatim>\<open>blocked_fpu_registers_\<close>) or when its blocking range
  (\<^verbatim>\<open>cpu_regs_\<close>, \<^verbatim>\<open>fpu_regs_\<close>) covers the interval.
\<close>

definition blocked_by ::
  "bool list \<Rightarrow> nat option list \<Rightarrow> live_range list \<Rightarrow> nat \<Rightarrow> int \<Rightarrow> int \<Rightarrow> bool" where
  "blocked_by blocked regs h r from to =
     (r < length blocked \<and>
      (blocked ! r \<or>
       (r < length regs \<and>
        (case regs ! r of
           Some p \<Rightarrow> p < length h \<and> covers (h ! p) from to
         | None \<Rightarrow> False))))"

definition register_blocked :: "allocator \<Rightarrow> location \<Rightarrow> int \<Rightarrow> int \<Rightarrow> bool" where
  "register_blocked st loc from to =
     (case loc of
        RegisterLocation r \<Rightarrow>
          blocked_by (blocked_cpu_registers st) (cpu_regs st) (ranges st) r from to
      | FpuRegisterLocation r \<Rightarrow>
          blocked_by (blocked_fpu_registers st) (fpu_regs st) (ranges st) r from to
      | _ \<Rightarrow> False)"

text \<open>
  The step of the loop over the inputs in \<^verbatim>\<open>ProcessOneInstruction\<close> for an input that is
  not a pair; \<open>locs\<close> is the location summary of the instruction.
  Modelled from the spec: \<^verbatim>\<open>LocationSummary::HasCallOnSlowPath\<close>, the summary can call
  and does not always call.
\<close>

definition HasCallOnSlowPath :: "location_summary \<Rightarrow> bool" where
  "HasCallOnSlowPath summary = (can_call summary \<and> \<not> always_calls summary)"

definition ProcessInput ::
  "flow_graph \<Rightarrow> allocator \<Rightarrow> nat \<Rightarrow> int \<Rightarrow> nat \<Rightarrow> nat \<Rightarrow> int \<Rightarrow> error + allocator" where
  "ProcessInput g st block pos locs in_ref v =
     ebind (at (summaries st) locs) (\<lambda>summary.
     ProcessOneInput g st block pos in_ref v
       (if HasCallOnSlowPath summary then Some locs else None))"

text \<open>The state in which the instruction at 8 of the graph above takes its input in register 2.\<close>

definition input_state :: allocator where
  "input_state = empty_allocator \<lparr> cells := [RegisterLocation 2],
     summaries := [\<lparr> always_calls = False, can_call = True, callee_safe_call = False,
                     stack_bits = [], live_registers = [] \<rparr>],
     value_representations := [kTagged], live_ranges := [None],
     cpu_regs := [None, None, None, None],
     blocked_cpu_registers := [False, False, False, False] \<rparr>"

text \<open>
  The constructor of \<^verbatim>\<open>UseInterval\<close> asserts \<^verbatim>\<open>start < end\<close>; the state below says so
  of every interval of the store.
\<close>

definition proper_intervals :: "allocator \<Rightarrow> bool" where
  "proper_intervals st =
     list_all (\<lambda>r. list_all (\<lambda>iv. iv_start iv < iv_end iv) (use_intervals r)) (ranges st)"

section \<open>Theorems\<close>

subsection \<open>The failure monad\<close>

lemma ebind_simps [simp]: "ebind (Inr x) f = f x" "ebind (Inl e) f = Inl e"
  by (simp_all add: ebind_def)

lemma ebind_eq_Inr: "ebind m f = Inr y \<longleftrightarrow> (\<exists>x. m = Inr x \<and> f x = Inr y)"
  by (cases m) simp_all

lemma ASSERT_eq_Inr [simp]: "ASSERT c = Inr u \<longleftrightarrow> c"
  by (simp add: ASSERT_def)


subsection \<open>\<^verbatim>\<open>LiveRange::AddUseInterval\<close>\<close>

text \<open>
  C3, as the specification states it: with \<open>s'\<close> the start of the first interval, the
  call is a no-op if \<open>s > s'\<close>, grows the end if \<open>s = s'\<close>, extends the first interval
  leftward if \<open>e = s'\<close> and otherwise prepends a new interval. The last case fails on the
  code: on a range whose first interval is \<open>[4, 10)\<close>, \<open>AddUseInterval(2, 10)\<close> falls in
  none of the first three cases, and the code does not prepend \<open>[2, 10)\<close>; it extends the
  first interval to \<open>[2, 10)\<close>, by the branch \<^verbatim>\<open>end == first_use_interval()->end()\<close>.
\<close>

theorem AddUseInterval_prepend_counterexample:
  "use_intervals range_4_10 = [\<lparr> iv_start = 4, iv_end = 10 \<rparr>] \<and>
   \<not> (2 :: int) > 4 \<and> (2 :: int) \<noteq> 4 \<and> (10 :: int) \<noteq> 4 \<and>
   AddUseInterval range_4_10 2 10 =
     Inr (range_4_10 \<lparr> use_intervals := [\<lparr> iv_start = 2, iv_end = 10 \<rparr>] \<rparr>) \<and>
   AddUseInterval range_4_10 2 10 \<noteq> Inr (prepend_interval range_4_10 2 10)"
  by (simp add: AddUseInterval_def range_4_10_def new_LiveRange_def prepend_interval_def)

text \<open>
  C3, amended: for a range whose first interval \<open>[s', e')\<close> is not empty and a call
  \<open>AddUseInterval(s, e)\<close> with \<open>s < e\<close>:
  if \<open>s > s'\<close> the call changes nothing, and is legal only for a range without virtual
  register (a block-location sentinel) with \<open>e \<le> e'\<close>;
  if \<open>s = s'\<close> the end of the first interval becomes the larger of \<open>e\<close> and \<open>e'\<close>;
  if \<open>s < s'\<close> and \<open>e = s'\<close> or \<open>e = e'\<close>, the start of the first interval becomes \<open>s\<close>;
  if \<open>e < s'\<close> a new interval \<open>[s, e)\<close> is put in front of the list;
  any other call (\<open>s < s' < e\<close>, \<open>e \<noteq> e'\<close>) fails the assertion \<^verbatim>\<open>end < first_use_interval()->start()\<close>.
\<close>

theorem AddUseInterval_cases:
  assumes "use_intervals r = first # rest" and "iv_start first < iv_end first" and "s < e"
  shows "(s > iv_start first \<longrightarrow>
            AddUseInterval r s e =
              (if vreg r = kNoVirtualRegister \<and> e \<le> iv_end first then Inr r
               else Inl AssertionFailed))
       \<and> (s = iv_start first \<longrightarrow>
            AddUseInterval r s e =
              Inr (r \<lparr> use_intervals := \<lparr> iv_start = s, iv_end = max e (iv_end first) \<rparr> # rest \<rparr>))
       \<and> (s < iv_start first \<and> (e = iv_start first \<or> e = iv_end first) \<longrightarrow>
            AddUseInterval r s e =
              Inr (r \<lparr> use_intervals := \<lparr> iv_start = s, iv_end = iv_end first \<rparr> # rest \<rparr>))
       \<and> (e < iv_start first \<longrightarrow>
            (\<exists>r'. AddUseInterval r s e = Inr r' \<and>
               use_intervals r' = \<lparr> iv_start = s, iv_end = e \<rparr> # first # rest))
       \<and> (s < iv_start first \<and> iv_start first < e \<and> e \<noteq> iv_end first \<longrightarrow>
            AddUseInterval r s e = Inl AssertionFailed)"
  using assms
  by (cases first) (auto simp: AddUseInterval_def prepend_interval_def max_def)

theorem AddUseInterval_cases_witness:
  "AddUseInterval blocking_4_10 6 8 = Inr blocking_4_10 \<and>
   AddUseInterval range_4_10 6 8 = Inl AssertionFailed \<and>
   AddUseInterval range_4_10 4 12 =
     Inr (range_4_10 \<lparr> use_intervals := [\<lparr> iv_start = 4, iv_end = 12 \<rparr>] \<rparr>) \<and>
   AddUseInterval range_4_10 2 4 =
     Inr (range_4_10 \<lparr> use_intervals := [\<lparr> iv_start = 2, iv_end = 10 \<rparr>] \<rparr>) \<and>
   AddUseInterval range_4_10 2 10 =
     Inr (range_4_10 \<lparr> use_intervals := [\<lparr> iv_start = 2, iv_end = 10 \<rparr>] \<rparr>) \<and>
   (\<exists>r'. AddUseInterval range_4_10 1 3 = Inr r' \<and>
      use_intervals r' = [\<lparr> iv_start = 1, iv_end = 3 \<rparr>, \<lparr> iv_start = 4, iv_end = 10 \<rparr>]) \<and>
   AddUseInterval range_4_10 2 7 = Inl AssertionFailed"
proof -
  have b: "use_intervals blocking_4_10 = \<lparr> iv_start = 4, iv_end = 10 \<rparr> # []"
    "vreg blocking_4_10 = kNoVirtualRegister"
    by (simp_all add: blocking_4_10_def new_LiveRange_def)
  have r: "use_intervals range_4_10 = \<lparr> iv_start = 4, iv_end = 10 \<rparr> # []"
    "vreg range_4_10 \<noteq> kNoVirtualRegister"
    by (simp_all add: range_4_10_def new_LiveRange_def kNoVirtualRegister_def)
  have i: "iv_start \<lparr> iv_start = 4, iv_end = 10 \<rparr> < iv_end \<lparr> iv_start = 4, iv_end = 10 \<rparr>"
    by simp
  show ?thesis
    using AddUseInterval_cases [OF b(1) i, of 6 8] AddUseInterval_cases [OF r(1) i, of 6 8]
      AddUseInterval_cases [OF r(1) i, of 4 12] AddUseInterval_cases [OF r(1) i, of 2 4]
      AddUseInterval_cases [OF r(1) i, of 2 10] AddUseInterval_cases [OF r(1) i, of 1 3]
      AddUseInterval_cases [OF r(1) i, of 2 7] b(2) r(2)
    by simp
qed

subsection \<open>\<^verbatim>\<open>LiveRange::SplitAt\<close>\<close>


lemma Initialize_fields [simp]:
  "use_intervals (Initialize r) = use_intervals r"
  "uses (Initialize r) = uses r"
  "safepoints (Initialize r) = safepoints r"
  "next_sibling (Initialize r) = next_sibling r"
  "vreg (Initialize r) = vreg r"
  "representation (Initialize r) = representation r"
  "Start (Initialize r) = Start r"
  "End (Initialize r) = End r"
  by (simp_all add: Initialize_def Start_def End_def)

lemma intervals_ok_nth:
  assumes "intervals_ok ivs" "i < length ivs"
  shows "iv_start (ivs ! i) < iv_end (ivs ! i)"
  using assms by (simp add: intervals_ok_def list_all_length)

lemma intervals_ok_le:
  assumes "intervals_ok ivs" "i < j" "j < length ivs"
  shows "iv_end (ivs ! i) \<le> iv_start (ivs ! j)"
  using assms by (simp add: intervals_ok_def sorted_wrt_iff_nth_less)

lemma intervals_ok_start_mono:
  assumes "intervals_ok ivs" "i \<le> j" "j < length ivs"
  shows "iv_start (ivs ! i) \<le> iv_start (ivs ! j)"
proof (cases "i = j")
  case True then show ?thesis by simp
next
  case False
  with assms have "i < j" by simp
  from intervals_ok_le [OF assms(1) this assms(3)] intervals_ok_nth [OF assms(1), of i] assms
  show ?thesis by simp
qed









lemma intervals_ok_Start_le_End:
  assumes "intervals_ok (use_intervals r)"
  shows "\<exists>s e. Start r = Inr s \<and> End r = Inr e \<and> s < e"
proof -
  define ivs where "ivs = use_intervals r"
  from assms have ne: "ivs \<noteq> []" by (simp add: intervals_ok_def ivs_def)
  then have l: "length ivs - 1 < length ivs" by simp
  have "iv_start (ivs ! 0) \<le> iv_start (ivs ! (length ivs - 1))"
    using intervals_ok_start_mono [OF assms [folded ivs_def], of 0 "length ivs - 1"] l by simp
  moreover have "iv_start (ivs ! (length ivs - 1)) < iv_end (ivs ! (length ivs - 1))"
    using intervals_ok_nth [OF assms [folded ivs_def] l] .
  ultimately show ?thesis using ne
    by (cases ivs) (auto simp: Start_def End_def ivs_def [symmetric] last_conv_nth)
qed









subsection \<open>\<^verbatim>\<open>FlowGraphAllocator::AllocateSpillSlotFor\<close>\<close>

lemma at_simps [simp]: "i < length xs \<Longrightarrow> at xs i = Inr (xs ! i)" "\<not> i < length xs \<Longrightarrow> at xs i = Inl IndexOutOfRange"
  by (simp_all add: at_def)


















subsection \<open>\<^verbatim>\<open>FlowGraphAllocator::SplitBetween\<close>\<close>












subsection \<open>\<^verbatim>\<open>FlowGraphAllocator::ResolveControlFlow\<close>, the linear part\<close>



lemma emit_move_fields [simp]:
  "ranges (emit_move st mv) = ranges st"
  "live_ranges (emit_move st mv) = live_ranges st"
  "value_representations (emit_move st mv) = value_representations st"
  by (auto simp: emit_move_def split: option.splits)

lemma pair_move_emit [simp]: "pair_move g (emit_move st mv) = pair_move g st"
  by (simp add: pair_move_def fun_eq_iff split: sum.splits)

lemma IsBlockEntry_cases: "IsBlockEntry g pos = Inr b \<Longrightarrow> (IsBlockEntry g pos = Inr True) = b"
  by auto



lemma foldl_emit_fields [simp]:
  "ranges (foldl emit_move st xs) = ranges st"
  "live_ranges (foldl emit_move st xs) = live_ranges st"
  by (induction xs arbitrary: st) simp_all

lemma pair_move_foldl_emit [simp]:
  "pair_move g (foldl emit_move st xs) = pair_move g st"
  by (simp add: pair_move_def fun_eq_iff split: sum.splits)

lemma chain_moves_foldl_emit [simp]:
  "chain_moves g (foldl emit_move st xs) = chain_moves g st"
  by (simp add: chain_moves_def Let_def fun_eq_iff split: option.splits)

lemma chains_ok_foldl_emit [simp]: "chains_ok (foldl emit_move st xs) = chains_ok st"
  by (simp add: chains_ok_def split: option.splits)












subsection \<open>Inputs in fixed registers\<close>

lemma AddUseInterval_covers:
  assumes "AddUseInterval r s e = Inr r'"
      and "list_all (\<lambda>iv. iv_start iv < iv_end iv) (use_intervals r)"
  shows "covers r' s e"
  using assms
  by (auto simp: AddUseInterval_def covers_def prepend_interval_def
      split: if_splits list.splits)

lemma AddUseInterval_proper:
  assumes "AddUseInterval r s e = Inr r'"
      and "list_all (\<lambda>iv. iv_start iv < iv_end iv) (use_intervals r)"
  shows "list_all (\<lambda>iv. iv_start iv < iv_end iv) (use_intervals r')"
  using assms
  by (auto simp: AddUseInterval_def prepend_interval_def split: if_splits list.splits)

lemma AddUseInterval_keeps_covers:
  assumes "AddUseInterval r s e = Inr r'" "covers r a b"
  shows "covers r' a b"
  using assms
  by (auto simp: AddUseInterval_def covers_def prepend_interval_def list_ex_iff
      split: if_splits list.splits)

lemma AddUseInterval_uses:
  assumes "AddUseInterval r s e = Inr r'"
  shows "uses r' = uses r"
  using assms
  by (auto simp: AddUseInterval_def prepend_interval_def split: if_splits list.splits)

lemma AddUseInterval_at_result:
  assumes "AddUseInterval_at st p s e = Inr st'"
  shows "\<exists>r'. p < length (ranges st) \<and> AddUseInterval (ranges st ! p) s e = Inr r' \<and>
              st' = st \<lparr> ranges := (ranges st)[p := r'] \<rparr>"
  using assms
  by (auto simp: AddUseInterval_at_def ebind_eq_Inr deref_def set_range_def split: if_splits)

lemma AddUse_range_result:
  assumes "AddUse_range r pos slot = Inr (r', i)"
  shows "i < length (uses r') \<and> use_pos (uses r' ! i) = pos \<and>
         location_slot (uses r' ! i) = slot \<and> use_intervals r' = use_intervals r"
proof (cases "use_intervals r")
  case Nil
  with assms show ?thesis by (simp add: AddUse_range_def)
next
  case (Cons first ivs)
  note ivs = this
  show ?thesis
  proof (cases "uses r")
    case Nil
    with assms ivs show ?thesis
      by (auto simp: AddUse_range_def ebind_eq_Inr insert_use_def)
  next
    case (Cons u us)
    define k where "k = length (takeWhile (\<lambda>x. use_pos x < pos) (uses r))"
    define same where "same = takeWhile (\<lambda>x. use_pos x = pos) (drop k (uses r))"
    define j where "j = length (takeWhile (\<lambda>x. location_slot x \<noteq> slot) same)"
    have k: "k \<le> length (uses r)"
      unfolding k_def by (rule length_takeWhile_le)
    have new: "i < length (uses (insert_use r i pos slot)) \<and>
               use_pos (uses (insert_use r i pos slot) ! i) = pos \<and>
               location_slot (uses (insert_use r i pos slot) ! i) = slot \<and>
               use_intervals (insert_use r i pos slot) = use_intervals r"
      if "i \<le> length (uses r)" for i
      using that by (simp add: insert_use_def nth_append)
    have found: "k + j < length (uses r) \<and> use_pos (uses r ! (k + j)) = pos \<and>
                 location_slot (uses r ! (k + j)) = slot" if j: "j < length same"
    proof -
      have len: "length same \<le> length (drop k (uses r))"
        unfolding same_def by (rule length_takeWhile_le)
      have nth: "same ! j = uses r ! (k + j)"
        using j k len unfolding same_def by (simp add: takeWhile_nth)
      have "same ! j \<in> set same" using j by simp
      then have p: "use_pos (same ! j) = pos"
        unfolding same_def by (auto dest: set_takeWhileD)
      have q: "\<not> location_slot (same ! j) \<noteq> slot"
        using j unfolding j_def by (rule nth_length_takeWhile)
      from j len p q nth show ?thesis by simp
    qed
    from assms ivs Cons show ?thesis
      using new [of 0] new [OF k] found
      by (auto simp: AddUse_range_def ebind_eq_Inr Let_def k_def same_def j_def
          split: if_splits)
  qed
qed

lemma AddUse_result:
  assumes "AddUse st p pos slot = Inr (st', i)"
  shows "\<exists>r'. p < length (ranges st) \<and> st' = st \<lparr> ranges := (ranges st)[p := r'] \<rparr> \<and>
              i < length (uses r') \<and> use_pos (uses r' ! i) = pos \<and>
              location_slot (uses r' ! i) = slot \<and>
              use_intervals r' = use_intervals (ranges st ! p)"
  using assms AddUse_range_result
  by (fastforce simp: AddUse_def ebind_eq_Inr deref_def set_range_def split: if_splits)

lemma AddHintedUse_result:
  assumes "AddHintedUse st p pos slot h = Inr st'"
  shows "\<exists>r'. p < length (ranges st) \<and> st' = st \<lparr> ranges := (ranges st)[p := r'] \<rparr> \<and>
              list_ex (\<lambda>u. use_pos u = pos \<and> location_slot u = slot \<and> hint u = Some h) (uses r') \<and>
              use_intervals r' = use_intervals (ranges st ! p)"
proof -
  from assms obtain st1 i r u where
    a: "AddUse st p pos slot = Inr (st1, i)" and
    r: "deref st1 p = Inr r" and u: "at (uses r) i = Inr u" and
    st': "st' = set_range st1 p (r \<lparr> uses := (uses r)[i := u \<lparr> hint := Some h \<rparr>] \<rparr>)"
    by (auto simp: AddHintedUse_def ebind_eq_Inr)
  from AddUse_result [OF a] obtain r1 where
    p: "p < length (ranges st)" and st1: "st1 = st \<lparr> ranges := (ranges st)[p := r1] \<rparr>" and
    i: "i < length (uses r1)" "use_pos (uses r1 ! i) = pos" "location_slot (uses r1 ! i) = slot" and
    iv: "use_intervals r1 = use_intervals (ranges st ! p)"
    by blast
  from r st1 p have r1: "r = r1" by (simp add: deref_def)
  from u i r1 have u': "u = uses r1 ! i" by (simp add: at_def)
  let ?r' = "r1 \<lparr> uses := (uses r1)[i := u \<lparr> hint := Some h \<rparr>] \<rparr>"
  have "(uses ?r') ! i \<in> set (uses ?r')" by (rule nth_mem) (simp add: i)
  moreover have "use_pos (uses ?r' ! i) = pos \<and> location_slot (uses ?r' ! i) = slot \<and>
                 hint (uses ?r' ! i) = Some h"
    using i u' by simp
  ultimately have "list_ex (\<lambda>u. use_pos u = pos \<and> location_slot u = slot \<and> hint u = Some h) (uses ?r')"
    unfolding list_ex_iff by blast
  with p st' st1 r1 iv show ?thesis
    by (intro exI [of _ ?r']) (simp add: set_range_def)
qed

lemma proper_intervals_update:
  assumes "proper_intervals st" "list_all (\<lambda>iv. iv_start iv < iv_end iv) (use_intervals r')"
  shows "proper_intervals (st \<lparr> ranges := (ranges st)[p := r'] \<rparr>)"
  using assms
  by (auto simp: proper_intervals_def list_all_iff dest!: set_update_subset_insert [THEN subsetD])

lemma proper_intervals_nth:
  assumes "proper_intervals st" "p < length (ranges st)"
  shows "list_all (\<lambda>iv. iv_start iv < iv_end iv) (use_intervals (ranges st ! p))"
  using assms by (simp add: proper_intervals_def list_all_length)

lemma AddUseInterval_at_proper:
  assumes "AddUseInterval_at st p s e = Inr st'" "proper_intervals st"
  shows "proper_intervals st' \<and> p < length (ranges st') \<and> covers (ranges st' ! p) s e \<and>
         length (ranges st') = length (ranges st) \<and>
         (\<forall>q a b. q < length (ranges st) \<longrightarrow> covers (ranges st ! q) a b \<longrightarrow> covers (ranges st' ! q) a b) \<and>
         (\<forall>q. q < length (ranges st) \<longrightarrow> representation (ranges st' ! q) = representation (ranges st ! q))"
proof -
  from AddUseInterval_at_result [OF assms(1)] obtain r' where
    p: "p < length (ranges st)" and a: "AddUseInterval (ranges st ! p) s e = Inr r'" and
    st': "st' = st \<lparr> ranges := (ranges st)[p := r'] \<rparr>"
    by blast
  note pr = proper_intervals_nth [OF assms(2) p]
  have rep: "representation r' = representation (ranges st ! p)"
    using a by (auto simp: AddUseInterval_def prepend_interval_def split: if_splits list.splits)
  from AddUseInterval_covers [OF a pr] AddUseInterval_proper [OF a pr]
    AddUseInterval_keeps_covers [OF a] p st' assms(2) rep
  show ?thesis
    by (auto simp: nth_list_update intro: proper_intervals_update)
qed

lemma BlockRegisterLocation_result:
  assumes "BlockRegisterLocation st cpu loc from to = Inr st'" "proper_intervals st"
  shows "\<exists>code. register_code loc = Inr code \<and>
           blocked_by (if cpu then blocked_cpu_registers st' else blocked_fpu_registers st')
             (if cpu then cpu_regs st' else fpu_regs st') (ranges st') code from to \<and>
           proper_intervals st' \<and> cells st' = cells st \<and> moves st' = moves st \<and>
           summaries st' = summaries st \<and> length (ranges st) \<le> length (ranges st') \<and>
           (\<forall>q. q < length (ranges st) \<longrightarrow>
              representation (ranges st' ! q) = representation (ranges st ! q))"
proof -
  let ?blocked = "if cpu then blocked_cpu_registers st else blocked_fpu_registers st"
  let ?regs = "if cpu then cpu_regs st else fpu_regs st"
  from assms(1) obtain code blocked where
    code: "register_code loc = Inr code" and blocked: "at ?blocked code = Inr blocked" and
    rest: "(if blocked then Inr st
            else ebind (at ?regs code) (\<lambda>entry.
              let (st1, blocking) =
                (case entry of
                   Some p \<Rightarrow> (st, p)
                 | None \<Rightarrow>
                     (let p = length (ranges st);
                          st' = st \<lparr> ranges := ranges st @
                                  [(new_LiveRange kNoVirtualRegister kNoRepresentation)
                                     \<lparr> assigned_location := loc \<rparr>] \<rparr>
                      in (if cpu then st' \<lparr> cpu_regs := (cpu_regs st)[code := Some p] \<rparr>
                          else st' \<lparr> fpu_regs := (fpu_regs st)[code := Some p] \<rparr>, p)))
              in AddUseInterval_at st1 blocking from to)) = Inr st'"
    unfolding BlockRegisterLocation_def ebind_eq_Inr by blast
  from blocked have len: "code < length ?blocked" and b: "blocked = ?blocked ! code"
    by (auto simp: at_def split: if_splits)
  show ?thesis
  proof (cases blocked)
    case True
    with rest code len b assms(2) show ?thesis
      by (auto simp: blocked_by_def)
  next
    case False
    with rest obtain entry where
      entry: "at ?regs code = Inr entry" and
      add: "(let (st1, blocking) =
                (case entry of
                   Some p \<Rightarrow> (st, p)
                 | None \<Rightarrow>
                     (let p = length (ranges st);
                          st' = st \<lparr> ranges := ranges st @
                                  [(new_LiveRange kNoVirtualRegister kNoRepresentation)
                                     \<lparr> assigned_location := loc \<rparr>] \<rparr>
                      in (if cpu then st' \<lparr> cpu_regs := (cpu_regs st)[code := Some p] \<rparr>
                          else st' \<lparr> fpu_regs := (fpu_regs st)[code := Some p] \<rparr>, p)))
              in AddUseInterval_at st1 blocking from to) = Inr st'"
      by (auto simp: ebind_eq_Inr)
    from entry have rlen: "code < length ?regs" and e: "entry = ?regs ! code"
      by (auto simp: at_def split: if_splits)
    show ?thesis
    proof (cases entry)
      case (Some p)
      with add have a: "AddUseInterval_at st p from to = Inr st'" by simp
      from e Some have rp: "?regs ! code = Some p" by simp
      from AddUseInterval_at_result [OF a] AddUseInterval_at_proper [OF a assms(2)]
        code len rlen rp
      show ?thesis
        by (auto simp: blocked_by_def split: if_splits)
    next
      case None
      define st1 where "st1 = (let st' = st \<lparr> ranges := ranges st @
                                  [(new_LiveRange kNoVirtualRegister kNoRepresentation)
                                     \<lparr> assigned_location := loc \<rparr>] \<rparr>
                      in (if cpu then st' \<lparr> cpu_regs := (cpu_regs st)[code := Some (length (ranges st))] \<rparr>
                          else st' \<lparr> fpu_regs := (fpu_regs st)[code := Some (length (ranges st))] \<rparr>))"
      from add None have a: "AddUseInterval_at st1 (length (ranges st)) from to = Inr st'"
        by (simp add: st1_def Let_def)
      have pr: "proper_intervals st1"
        using assms(2) by (simp add: st1_def proper_intervals_def new_LiveRange_def Let_def)
      have f: "ranges st1 = ranges st @ [(new_LiveRange kNoVirtualRegister kNoRepresentation)
                                     \<lparr> assigned_location := loc \<rparr>]"
        "cells st1 = cells st" "moves st1 = moves st" "summaries st1 = summaries st"
        "blocked_cpu_registers st1 = blocked_cpu_registers st"
        "blocked_fpu_registers st1 = blocked_fpu_registers st"
        "(if cpu then cpu_regs st1 else fpu_regs st1) = ?regs [code := Some (length (ranges st))]"
        by (simp_all add: st1_def Let_def)
      from AddUseInterval_at_result [OF a] AddUseInterval_at_proper [OF a pr]
        code len rlen f
      show ?thesis
        by (auto simp: blocked_by_def nth_append)
    qed
  qed
qed

lemma BlockLocation_result:
  assumes "BlockLocation st loc from to = Inr st'" "proper_intervals st"
  shows "register_blocked st' loc from to \<and>
           proper_intervals st' \<and> cells st' = cells st \<and> moves st' = moves st \<and>
           summaries st' = summaries st \<and> length (ranges st) \<le> length (ranges st') \<and>
           (\<forall>q. q < length (ranges st) \<longrightarrow>
              representation (ranges st' ! q) = representation (ranges st ! q))"
proof (cases loc)
  case (RegisterLocation r)
  with assms(1) have "BlockRegisterLocation st True loc from to = Inr st'"
    by (simp add: BlockLocation_def)
  from BlockRegisterLocation_result [OF this assms(2)] RegisterLocation
  show ?thesis by (auto simp: register_blocked_def)
next
  case (FpuRegisterLocation r)
  with assms(1) have "BlockRegisterLocation st False loc from to = Inr st'"
    by (simp add: BlockLocation_def)
  from BlockRegisterLocation_result [OF this assms(2)] FpuRegisterLocation
  show ?thesis by (auto simp: register_blocked_def)
qed (use assms(1) in \<open>simp_all add: BlockLocation_def\<close>)

lemma register_blocked_mono:
  assumes "register_blocked st loc a b"
      and "blocked_cpu_registers st' = blocked_cpu_registers st"
      and "blocked_fpu_registers st' = blocked_fpu_registers st"
      and "cpu_regs st' = cpu_regs st" and "fpu_regs st' = fpu_regs st"
      and "length (ranges st') = length (ranges st)"
      and "\<forall>q. q < length (ranges st) \<longrightarrow> covers (ranges st ! q) a b \<longrightarrow> covers (ranges st' ! q) a b"
  shows "register_blocked st' loc a b"
  using assms
  by (auto simp: register_blocked_def blocked_by_def split: location.splits option.splits)

lemma GetLiveRange_frame:
  assumes "GetLiveRange st v = Inr (st0, p)"
  shows "cells st0 = cells st \<and> moves st0 = moves st \<and>
         summaries st0 = summaries st \<and> (proper_intervals st \<longrightarrow> proper_intervals st0)"
proof (cases "v < 0")
  case True
  with assms show ?thesis by (simp add: GetLiveRange_def)
next
  case False
  with assms obtain entry where
    entry: "at (live_ranges st) (nat v) = Inr entry" and
    rest: "(case entry of
             Some p \<Rightarrow> Inr (st, p)
           | None \<Rightarrow>
               ebind (at (value_representations st) (nat v)) (\<lambda>rep.
               ebind (ASSERT (rep \<noteq> kNoRepresentation)) (\<lambda>_.
               Inr (st \<lparr> ranges := ranges st @ [new_LiveRange v rep],
                         live_ranges := (live_ranges st)[nat v := Some (length (ranges st))] \<rparr>,
                    length (ranges st))))) = Inr (st0, p)"
    by (auto simp: GetLiveRange_def ebind_eq_Inr)
  show ?thesis
  proof (cases entry)
    case None
    with rest show ?thesis
      by (auto simp: ebind_eq_Inr proper_intervals_def new_LiveRange_def)
  next
    case (Some q)
    with rest show ?thesis by simp
  qed
qed

text \<open>
  C4, amended in the direction of the move. When \<^verbatim>\<open>ProcessOneInstruction\<close> processes an
  input whose location is a fixed machine register and \<^verbatim>\<open>ProcessOneInput\<close> returns, then:
  one move was added at \<open>pos - 1\<close>, with the fixed register as its destination and an
  unallocated location (\<^verbatim>\<open>Location::Any()\<close>) as its source; the register is blocked over
  \<open>[pos - 1, pos + 1)\<close>, by its blocking range or because it is blocked everywhere; the
  live range of the input value covers \<open>[block.start, pos - 1)\<close> and has a use at
  \<open>pos - 1\<close> on the source slot of the move, with the input's location as hint; and the
  register was added, with the representation of the value, to the live registers of the
  instruction's location summary exactly when the summary has a call on the slow path.
\<close>

theorem ProcessInput_fixed_register:
  assumes "proper_intervals st"
      and "at (cells st) in_ref = Inr in_loc" and "IsMachineRegister in_loc"
      and "ProcessInput g st block pos locs in_ref v = Inr st'"
  shows "\<exists>b st0 range_ptr.
           block_at g block = Inr b \<and> GetLiveRange st v = Inr (st0, range_ptr) \<and>
           cells st' = cells st @ [in_loc, Unallocated kAny] \<and>
           moves st' = moves st @ [\<lparr> move_pos = pos - 1, dest_slot = length (cells st),
                                      src_slot = Suc (length (cells st)) \<rparr>] \<and>
           register_blocked st' in_loc (pos - 1) (pos + 1) \<and>
           range_ptr < length (ranges st') \<and>
           covers (ranges st' ! range_ptr) (start_pos b) (pos - 1) \<and>
           list_ex (\<lambda>u. use_pos u = pos - 1 \<and> location_slot u = Suc (length (cells st)) \<and>
                         hint u = Some (SlotAt in_ref)) (uses (ranges st' ! range_ptr)) \<and>
           locs < length (summaries st) \<and>
           summaries st' =
             (if HasCallOnSlowPath (summaries st ! locs)
              then (summaries st)[locs := (summaries st ! locs)
                     \<lparr> live_registers := live_registers (summaries st ! locs) @
                          [(in_loc, representation (ranges st0 ! range_ptr))] \<rparr>]
              else summaries st)"
proof -
  define lr where "lr = (if HasCallOnSlowPath (summaries st ! locs) then Some locs else None)"
  from assms(4) have locs: "locs < length (summaries st)"
    and one: "ProcessOneInput g st block pos in_ref v lr = Inr st'"
    by (auto simp: ProcessInput_def ebind_eq_Inr at_def lr_def split: if_splits)
  have np: "\<not> IsPairLocation in_loc"
    using assms(3) by (cases in_loc) (simp_all add: IsMachineRegister_def)
  from one assms(2,3) obtain b st0 range_ptr st1 st2 move st3 st4 m where
    b: "block_at g block = Inr b" and
    get: "GetLiveRange st v = Inr (st0, range_ptr)" and
    st1: "(case lr of None \<Rightarrow> Inr st0
           | Some l \<Rightarrow> ebind (deref st0 range_ptr) (\<lambda>r.
               add_live_register st0 l in_loc (representation r))) = Inr st1" and
    mv: "AddMoveAt g st1 (pos - 1) in_loc (Unallocated kAny) = Inr (st2, move)" and
    bl: "BlockLocation st2 in_loc (pos - 1) (pos + 1) = Inr st3" and
    iv: "AddUseInterval_at st3 range_ptr (start_pos b) (pos - 1) = Inr st4" and
    m: "at (moves st4) move = Inr m" and
    use: "AddHintedUse st4 range_ptr (pos - 1) (src_slot m) (SlotAt in_ref) = Inr st'"
    using np unfolding ProcessOneInput_def fixed_register_input_def
    by (auto simp: ebind_eq_Inr)
  note f0 = GetLiveRange_frame [OF get]
  have f1: "ranges st1 = ranges st0 \<and> cells st1 = cells st \<and> moves st1 = moves st \<and>
    summaries st1 =
       (if HasCallOnSlowPath (summaries st ! locs)
        then (summaries st)[locs := (summaries st ! locs)
               \<lparr> live_registers := live_registers (summaries st ! locs) @
                    [(in_loc, representation (ranges st0 ! range_ptr))] \<rparr>]
        else summaries st)"
  proof (cases "HasCallOnSlowPath (summaries st ! locs)")
    case True
    with st1 obtain r where "deref st0 range_ptr = Inr r"
      "add_live_register st0 locs in_loc (representation r) = Inr st1"
      by (auto simp: lr_def ebind_eq_Inr)
    with f0 locs True show ?thesis
      by (auto simp: deref_def add_live_register_def at_def ebind_eq_Inr split: if_splits)
  next
    case False
    with st1 f0 show ?thesis
      by (auto simp: lr_def)
  qed
  define new_move where "new_move = \<lparr> move_pos = pos - 1, dest_slot = length (cells st),
                                      src_slot = Suc (length (cells st)) \<rparr>"
  have f2: "ranges st2 = ranges st0" "cells st2 = cells st @ [in_loc, Unallocated kAny]"
    "moves st2 = moves st @ [new_move]" "summaries st2 = summaries st1" "move = length (moves st)"
    using mv f1 by (auto simp: AddMoveAt_def ebind_eq_Inr new_move_def)
  have p2: "proper_intervals st2"
    using f0 f2(1) assms(1) by (simp add: proper_intervals_def)
  from BlockLocation_result [OF bl p2] have
    b3: "register_blocked st3 in_loc (pos - 1) (pos + 1)" and
    p3: "proper_intervals st3" and
    f3: "cells st3 = cells st2" "moves st3 = moves st2" "summaries st3 = summaries st2"
    by blast+
  from AddUseInterval_at_proper [OF iv p3] have
    c4: "covers (ranges st4 ! range_ptr) (start_pos b) (pos - 1)" and
    l4: "length (ranges st4) = length (ranges st3)" and
    k4: "\<forall>q a b. q < length (ranges st3) \<longrightarrow> covers (ranges st3 ! q) a b \<longrightarrow>
           covers (ranges st4 ! q) a b"
    by blast+
  from AddUseInterval_at_result [OF iv] obtain r4' where
    st4: "st4 = st3 \<lparr> ranges := (ranges st3)[range_ptr := r4'] \<rparr>" by blast
  have b4: "register_blocked st4 in_loc (pos - 1) (pos + 1)"
  proof (rule register_blocked_mono [OF b3])
    show "\<forall>q. q < length (ranges st3) \<longrightarrow> covers (ranges st3 ! q) (pos - 1) (pos + 1) \<longrightarrow>
            covers (ranges st4 ! q) (pos - 1) (pos + 1)"
      using k4 by blast
  qed (simp_all add: st4)
  have m': "m = new_move"
    using m f2(3,5) f3(2) by (simp add: st4 at_def split: if_splits)
  from AddHintedUse_result [OF use] obtain r' where
    p: "range_ptr < length (ranges st4)" and
    st': "st' = st4 \<lparr> ranges := (ranges st4)[range_ptr := r'] \<rparr>" and
    u: "list_ex (\<lambda>u. use_pos u = pos - 1 \<and> location_slot u = src_slot m \<and>
                      hint u = Some (SlotAt in_ref)) (uses r')" and
    same: "use_intervals r' = use_intervals (ranges st4 ! range_ptr)"
    by blast
  have c: "covers (ranges st' ! q) x y = covers (ranges st4 ! q) x y"
    if "q < length (ranges st4)" for q x y
    using that same by (cases "q = range_ptr") (simp_all add: st' covers_def)
  have b': "register_blocked st' in_loc (pos - 1) (pos + 1)"
  proof (rule register_blocked_mono [OF b4])
    show "\<forall>q. q < length (ranges st4) \<longrightarrow> covers (ranges st4 ! q) (pos - 1) (pos + 1) \<longrightarrow>
            covers (ranges st' ! q) (pos - 1) (pos + 1)"
      using c by blast
  qed (simp_all add: st')
  have cells: "cells st' = cells st @ [in_loc, Unallocated kAny]"
    using f2(2) f3(1) by (simp add: st' st4)
  have moves: "moves st' = moves st @ [new_move]"
    using f2(3) f3(2) by (simp add: st' st4)
  have sums: "summaries st' = summaries st1"
    using f2(4) f3(3) by (simp add: st' st4)
  have p': "range_ptr < length (ranges st')"
    using p by (simp add: st')
  have cov: "covers (ranges st' ! range_ptr) (start_pos b) (pos - 1)"
    using c [OF p] c4 by simp
  have u': "list_ex (\<lambda>u. use_pos u = pos - 1 \<and> location_slot u = Suc (length (cells st)) \<and>
                      hint u = Some (SlotAt in_ref)) (uses (ranges st' ! range_ptr))"
    using u p by (simp add: st' m' new_move_def)
  have sums': "summaries st' =
       (if HasCallOnSlowPath (summaries st ! locs)
        then (summaries st)[locs := (summaries st ! locs)
               \<lparr> live_registers := live_registers (summaries st ! locs) @
                    [(in_loc, representation (ranges st0 ! range_ptr))] \<rparr>]
        else summaries st)"
    using sums f1 by simp
  from b get cells moves b' p' cov u' locs sums'
  have "block_at g block = Inr b \<and> GetLiveRange st v = Inr (st0, range_ptr) \<and>
           cells st' = cells st @ [in_loc, Unallocated kAny] \<and>
           moves st' = moves st @ [\<lparr> move_pos = pos - 1, dest_slot = length (cells st),
                                      src_slot = Suc (length (cells st)) \<rparr>] \<and>
           register_blocked st' in_loc (pos - 1) (pos + 1) \<and>
           range_ptr < length (ranges st') \<and>
           covers (ranges st' ! range_ptr) (start_pos b) (pos - 1) \<and>
           list_ex (\<lambda>u. use_pos u = pos - 1 \<and> location_slot u = Suc (length (cells st)) \<and>
                         hint u = Some (SlotAt in_ref)) (uses (ranges st' ! range_ptr)) \<and>
           locs < length (summaries st) \<and>
           summaries st' =
             (if HasCallOnSlowPath (summaries st ! locs)
              then (summaries st)[locs := (summaries st ! locs)
                     \<lparr> live_registers := live_registers (summaries st ! locs) @
                          [(in_loc, representation (ranges st0 ! range_ptr))] \<rparr>]
              else summaries st)"
    unfolding new_move_def by (intro conjI)
  then show ?thesis by blast
qed


end
